theory Spec2Isabelle
  imports Main
begin

section \<open>Python values and failures\<close>

text \<open>
  The exceptions that the modelled code can raise, both from the Arrow table's
  \<^verbatim>\<open>slice\<close>: \<^verbatim>\<open>IndexError('Offset must be non-negative')\<close>, and the
  \<^verbatim>\<open>OverflowError\<close> of a length that does not fit the 64-bit parameter it is
  converted to.
\<close>

datatype pyexn = IndexError | OverflowError

text \<open>
  Python's two-argument \<^verbatim>\<open>min\<close> and \<^verbatim>\<open>max\<close> keep the first argument
  unless the second is strictly smaller (respectively strictly larger).
\<close>

definition py_min :: "'a::linorder \<Rightarrow> 'a \<Rightarrow> 'a" where
  "py_min a b = (if b < a then b else a)"

definition py_max :: "'a::linorder \<Rightarrow> 'a \<Rightarrow> 'a" where
  "py_max a b = (if a < b then b else a)"

section \<open>ArrowQueue\<close>

text \<open>
  An Arrow table is modelled by the list of its rows; \<^verbatim>\<open>num_rows\<close> is the length
  of that list. The table's \<^verbatim>\<open>slice(offset, length)\<close> is not code of this
  repository but of the Arrow library, and is modelled as the library behaves: it
  raises \<^verbatim>\<open>IndexError\<close> on a negative offset, clips an offset beyond the end of
  the table to the end (\<^verbatim>\<open>offset = min(len(self), offset)\<close>), then converts
  \<^verbatim>\<open>length\<close> to a signed 64-bit integer, which raises \<^verbatim>\<open>OverflowError\<close> for a
  length below \<open>-2\<^sup>6\<^sup>3\<close> or above \<open>2\<^sup>6\<^sup>3 - 1\<close>, and returns the rows from the
  offset on, at most \<^verbatim>\<open>length\<close> of them (none when \<^verbatim>\<open>length\<close> is zero or
  negative).

  The row count of an Arrow table is itself a signed 64-bit integer, so a length
  between 0 and the row count of the table always fits. \<open>length_ok\<close> says so for
  a row list of any size: the lists of \<open>2\<^sup>6\<^sup>3\<close> rows or more stand for no table, and
  on every other list \<open>length_ok tbl len\<close> is \<open>fits_int64 len\<close>.
\<close>

definition fits_int64 :: "int \<Rightarrow> bool" where
  "fits_int64 i \<longleftrightarrow> - (2 ^ 63) \<le> i \<and> i < 2 ^ 63"

definition length_ok :: "'r list \<Rightarrow> int \<Rightarrow> bool" where
  "length_ok tbl len \<longleftrightarrow> fits_int64 len \<or> (0 \<le> len \<and> len \<le> int (length tbl))"

definition slice :: "'r list \<Rightarrow> int \<Rightarrow> int \<Rightarrow> pyexn + 'r list" where
  "slice tbl offset len =
     (if offset < 0 then Inl IndexError
      else if \<not> length_ok tbl len then Inl OverflowError
      else Inr (take (nat len) (drop (nat (py_min (int (length tbl)) offset)) tbl)))"

record 'r ArrowQueue =
  cur_row_index :: int
  arrow_table :: "'r list"
  n_valid_rows :: int

definition init_queue :: "'r list \<Rightarrow> int \<Rightarrow> int \<Rightarrow> 'r ArrowQueue" where
  "init_queue tbl n_valid start_row_index =
     \<lparr>cur_row_index = start_row_index, arrow_table = tbl, n_valid_rows = n_valid\<rparr>"

text \<open>
  Both methods mutate the queue: they return the slice together with the queue after
  the call, or the exception of \<^verbatim>\<open>slice\<close>, which leaves the queue as it was.
\<close>

definition next_n_rows :: "'r ArrowQueue \<Rightarrow> int \<Rightarrow> pyexn + ('r list \<times> 'r ArrowQueue)" where
  "next_n_rows q num_rows =
     (let len = py_min num_rows (n_valid_rows q - cur_row_index q) in
      case slice (arrow_table q) (cur_row_index q) len of
        Inl e \<Rightarrow> Inl e
      | Inr s \<Rightarrow> Inr (s, q\<lparr>cur_row_index := cur_row_index q + int (length s)\<rparr>))"

definition remaining_rows :: "'r ArrowQueue \<Rightarrow> pyexn + ('r list \<times> 'r ArrowQueue)" where
  "remaining_rows q =
     (case slice (arrow_table q) (cur_row_index q) (n_valid_rows q - cur_row_index q) of
        Inl e \<Rightarrow> Inl e
      | Inr s \<Rightarrow> Inr (s, q\<lparr>cur_row_index := cur_row_index q + int (length s)\<rparr>))"

text \<open>
  The invariant of the data model: \<open>0 \<le> cursor \<le> validRowCount \<le> batchSize\<close>.
\<close>

definition queue_inv :: "'r ArrowQueue \<Rightarrow> bool" where
  "queue_inv q \<longleftrightarrow>
     0 \<le> cur_row_index q \<and> cur_row_index q \<le> n_valid_rows q
     \<and> n_valid_rows q \<le> int (length (arrow_table q))"

text \<open>
  A consumer's calls on one queue, run in sequence; an exception ends the run.
\<close>

datatype queue_call = NextNRows int | RemainingRows

fun do_call :: "'r ArrowQueue \<Rightarrow> queue_call \<Rightarrow> pyexn + ('r list \<times> 'r ArrowQueue)" where
  "do_call q (NextNRows n) = next_n_rows q n"
| "do_call q RemainingRows = remaining_rows q"

fun run_calls :: "'r ArrowQueue \<Rightarrow> queue_call list \<Rightarrow> pyexn + ('r list list \<times> 'r ArrowQueue)" where
  "run_calls q [] = Inr ([], q)"
| "run_calls q (c # cs) =
     (case do_call q c of
        Inl e \<Rightarrow> Inl e
      | Inr (s, q') \<Rightarrow>
          (case run_calls q' cs of
             Inl e \<Rightarrow> Inl e
           | Inr (ss, q'') \<Rightarrow> Inr (s # ss, q'')))"

text \<open>A call whose row count, if it has one, is not negative.\<close>

definition nonneg_call :: "queue_call \<Rightarrow> bool" where
  "nonneg_call c = (case c of NextNRows n \<Rightarrow> 0 \<le> n | RemainingRows \<Rightarrow> True)"

text \<open>A call whose row count, if it has one, is positive.\<close>

definition pos_call :: "queue_call \<Rightarrow> bool" where
  "pos_call c = (case c of NextNRows k \<Rightarrow> 0 < k | RemainingRows \<Rightarrow> True)"

section \<open>Bounding a value\<close>

definition bound :: "'a::linorder option \<Rightarrow> 'a option \<Rightarrow> 'a \<Rightarrow> 'a" where
  "bound min_x max_x x =
     (if min_x = None \<and> max_x = None then x
      else if min_x = None then py_min (the max_x) x
      else if max_x = None then py_max (the min_x) x
      else py_min (the max_x) (py_max (the min_x) x))"

text \<open>
  The reference definition of \<open>clamp\<close>, in the four cases of the specification, with
  the order's own \<open>min\<close> and \<open>max\<close>.
\<close>

fun clamp_spec :: "'a::linorder option \<Rightarrow> 'a option \<Rightarrow> 'a \<Rightarrow> 'a" where
  "clamp_spec None None x = x"
| "clamp_spec None (Some maxX) x = min maxX x"
| "clamp_spec (Some minX) None x = max minX x"
| "clamp_spec (Some minX) (Some maxX) x = min maxX (max minX x)"

section \<open>Rendering Python values\<close>

text \<open>
  The values that reach \<^verbatim>\<open>str.format\<close>: \<^verbatim>\<open>None\<close>, strings, integers, and any
  other object (a float, a byte string, an exception), which is carried as the text
  that \<^verbatim>\<open>str()\<close> gives for it.
\<close>

datatype pyval = PNone | PStr string | PInt int | PObj string

definition digit_char :: "nat \<Rightarrow> char" where
  "digit_char d = ''0123456789'' ! d"

fun show_nat :: "nat \<Rightarrow> string" where
  "show_nat n = (if n < 10 then [digit_char n] else show_nat (n div 10) @ [digit_char (n mod 10)])"

declare show_nat.simps [simp del]

definition show_int :: "int \<Rightarrow> string" where
  "show_int i = (if i < 0 then CHR ''-'' # show_nat (nat (- i)) else show_nat (nat i))"

fun py_str :: "pyval \<Rightarrow> string" where
  "py_str PNone = ''None''"
| "py_str (PStr s) = s"
| "py_str (PInt i) = show_int i"
| "py_str (PObj s) = s"

text \<open>The separator's \<^verbatim>\<open>join\<close> over a list of strings.\<close>

fun py_join :: "string \<Rightarrow> string list \<Rightarrow> string" where
  "py_join sep [] = []"
| "py_join sep [x] = x"
| "py_join sep (x # y # ys) = x @ sep @ py_join sep (y # ys)"

text \<open>
  An \<^verbatim>\<open>OrderedDict\<close> is the list of its items in insertion order. Assigning to a
  key that is already there replaces its value in place; a new key goes to the end.
\<close>

type_synonym ordered_dict = "(string \<times> pyval) list"

fun od_setitem :: "ordered_dict \<Rightarrow> string \<Rightarrow> pyval \<Rightarrow> ordered_dict" where
  "od_setitem [] k v = [(k, v)]"
| "od_setitem ((k', v') # d) k v =
     (if k' = k then (k', v) # d else (k', v') # od_setitem d k v)"

definition OrderedDict :: "(string \<times> pyval) list \<Rightarrow> ordered_dict" where
  "OrderedDict ps = foldl (\<lambda>d (k, v). od_setitem d k v) [] ps"

section \<open>NoRetryReason and RequestErrorInfo\<close>

datatype NoRetryReason = OUT_OF_TIME | OUT_OF_ATTEMPTS | NOT_RETRYABLE

fun nrr_value :: "NoRetryReason \<Rightarrow> string" where
  "nrr_value OUT_OF_TIME = ''out of time''"
| "nrr_value OUT_OF_ATTEMPTS = ''out of attempts''"
| "nrr_value NOT_RETRYABLE = ''non-retryable error''"

text \<open>
  The originating request is read only through two attribute probes. Each field below
  is \<open>None\<close> when the request object has no such attribute, and otherwise holds the
  identifier that the handle leads to (\<^verbatim>\<open>sessionHandle.sessionId.guid\<close>,
  \<^verbatim>\<open>operationHandle.operationId.guid\<close>).
\<close>

record pyrequest =
  sessionHandle :: "pyval option"
  operationHandle :: "pyval option"

record RequestErrorInfo =
  error :: pyval
  error_message :: "string option"
  retry_delay :: pyval
  http_code :: "int option"
  "method" :: string
  request :: pyrequest

definition request_session_id :: "RequestErrorInfo \<Rightarrow> pyval" where
  "request_session_id info =
     (case sessionHandle (request info) of Some guid \<Rightarrow> guid | None \<Rightarrow> PNone)"

definition request_query_id :: "RequestErrorInfo \<Rightarrow> pyval" where
  "request_query_id info =
     (case operationHandle (request info) of Some guid \<Rightarrow> guid | None \<Rightarrow> PNone)"

definition opt_int_val :: "int option \<Rightarrow> pyval" where
  "opt_int_val c = (case c of None \<Rightarrow> PNone | Some i \<Rightarrow> PInt i)"

definition opt_str_val :: "string option \<Rightarrow> pyval" where
  "opt_str_val m = (case m of None \<Rightarrow> PNone | Some s \<Rightarrow> PStr s)"

text \<open>The truth value of an optional string: \<^verbatim>\<open>None\<close> and \<^verbatim>\<open>""\<close> are false.\<close>

definition str_truthy :: "string option \<Rightarrow> bool" where
  "str_truthy m = (case m of None \<Rightarrow> False | Some s \<Rightarrow> s \<noteq> [])"

definition format_item :: "string \<times> pyval \<Rightarrow> string" where
  "format_item kv = fst kv @ '': '' @ py_str (snd kv)"

definition full_info_logging_str ::
  "RequestErrorInfo \<Rightarrow> NoRetryReason option \<Rightarrow> pyval \<Rightarrow> pyval \<Rightarrow> pyval \<Rightarrow> pyval \<Rightarrow> string" where
  "full_info_logging_str info no_retry_reason attempt max_attempts elapsed max_duration =
     (let log_base_data_dict = OrderedDict [
            (''Method'', PStr (method info)),
            (''Session-id'', request_session_id info),
            (''Query-id'', request_query_id info),
            (''HTTP-code'', opt_int_val (http_code info)),
            (''Error-message'', opt_str_val (error_message info)),
            (''Original-exception'', error info)];
          log_base_data_dict =
            (case no_retry_reason of
               Some r \<Rightarrow> od_setitem log_base_data_dict ''No-retry-reason'' (PStr (nrr_value r))
             | None \<Rightarrow>
                 od_setitem
                   (od_setitem
                      (od_setitem log_base_data_dict ''Bounded-retry-delay'' (retry_delay info))
                      ''Attempt'' (PStr (py_str attempt @ ''/'' @ py_str max_attempts)))
                   ''Elapsed-seconds'' (PStr (py_str elapsed @ ''/'' @ py_str max_duration)))
      in py_join ''; '' (map format_item log_base_data_dict))"

definition user_friendly_error_message ::
  "RequestErrorInfo \<Rightarrow> NoRetryReason option \<Rightarrow> pyval \<Rightarrow> pyval \<Rightarrow> string" where
  "user_friendly_error_message info no_retry_reason attempt elapsed =
     (let msg = ''Error during request to server'';
          msg = (if str_truthy (error_message info)
                 then msg @ '': '' @ py_str (opt_str_val (error_message info))
                 else msg)
      in if no_retry_reason = Some OUT_OF_ATTEMPTS
         then msg @ '': After '' @ py_str attempt @ '' retry attempts, retries are exhausted''
         else if no_retry_reason = Some OUT_OF_TIME
         then msg @ '': After '' @ py_str elapsed
                @ '' seconds, maximum retry duration will be exceeded''
         else msg)"

section \<open>Facts about slicing and the queue\<close>

lemma slice_nonneg:
  "0 \<le> offset \<Longrightarrow> length_ok tbl len \<Longrightarrow>
   slice tbl offset len = Inr (take (nat len) (drop (nat offset) tbl))"
  by (simp add: slice_def py_min_def)

lemma py_min_eq_min: "py_min a b = min a b"
  by (auto simp: py_min_def min_def)

lemma py_max_eq_max: "py_max a b = max a b"
  by (auto simp: py_max_def max_def)

lemma next_n_rows_nonneg:
  "0 \<le> cur_row_index q \<Longrightarrow>
   length_ok (arrow_table q) (min n (n_valid_rows q - cur_row_index q)) \<Longrightarrow>
   next_n_rows q n =
     (let s = take (nat (min n (n_valid_rows q - cur_row_index q)))
                (drop (nat (cur_row_index q)) (arrow_table q))
      in Inr (s, q\<lparr>cur_row_index := cur_row_index q + int (length s)\<rparr>))"
  by (simp add: next_n_rows_def slice_nonneg py_min_eq_min Let_def)

lemma remaining_rows_nonneg:
  "0 \<le> cur_row_index q \<Longrightarrow>
   length_ok (arrow_table q) (n_valid_rows q - cur_row_index q) \<Longrightarrow>
   remaining_rows q =
     (let s = take (nat (n_valid_rows q - cur_row_index q))
                (drop (nat (cur_row_index q)) (arrow_table q))
      in Inr (s, q\<lparr>cur_row_index := cur_row_index q + int (length s)\<rparr>))"
  by (simp add: remaining_rows_def slice_nonneg Let_def)

lemma length_ok_inv:
  assumes "queue_inv q" "0 \<le> k" "k \<le> n_valid_rows q - cur_row_index q"
  shows "length_ok (arrow_table q) k"
  using assms by (simp add: queue_inv_def length_ok_def)

lemma length_take_drop_inv:
  assumes "queue_inv q" "0 \<le> k" "k \<le> n_valid_rows q - cur_row_index q"
  shows "int (length (take (nat k) (drop (nat (cur_row_index q)) (arrow_table q)))) = k"
  using assms by (auto simp: queue_inv_def min_def)

lemma next_n_rows_inv:
  assumes "queue_inv q" and "0 \<le> n"
  shows "next_n_rows q n =
     Inr (take (nat (min n (n_valid_rows q - cur_row_index q)))
            (drop (nat (cur_row_index q)) (arrow_table q)),
          q\<lparr>cur_row_index := cur_row_index q + min n (n_valid_rows q - cur_row_index q)\<rparr>)"
proof -
  let ?tk = "min n (n_valid_rows q - cur_row_index q)"
  from assms have c0: "0 \<le> cur_row_index q" and tk0: "0 \<le> ?tk" and tk1: "?tk \<le> n_valid_rows q - cur_row_index q"
    by (auto simp: queue_inv_def)
  have lo: "length_ok (arrow_table q) ?tk"
    by (rule length_ok_inv [OF assms(1) tk0 tk1])
  have len: "int (length (take (nat ?tk) (drop (nat (cur_row_index q)) (arrow_table q)))) = ?tk"
    by (rule length_take_drop_inv [OF assms(1) tk0 tk1])
  show ?thesis
    using next_n_rows_nonneg [OF c0 lo] len by (simp add: Let_def)
qed

lemma remaining_rows_inv:
  assumes "queue_inv q"
  shows "remaining_rows q =
     Inr (take (nat (n_valid_rows q - cur_row_index q))
            (drop (nat (cur_row_index q)) (arrow_table q)),
          q\<lparr>cur_row_index := n_valid_rows q\<rparr>)"
proof -
  let ?k = "n_valid_rows q - cur_row_index q"
  from assms have c0: "0 \<le> cur_row_index q" and k0: "0 \<le> ?k"
    by (auto simp: queue_inv_def)
  have lo: "length_ok (arrow_table q) ?k"
    by (rule length_ok_inv [OF assms k0]) simp
  have len: "int (length (take (nat ?k) (drop (nat (cur_row_index q)) (arrow_table q)))) = ?k"
    by (rule length_take_drop_inv [OF assms k0]) simp
  show ?thesis
    using remaining_rows_nonneg [OF c0 lo] len by (simp add: Let_def)
qed

lemma do_call_inv:
  assumes "queue_inv q" and "nonneg_call c"
  shows "\<exists>s q'. do_call q c = Inr (s, q') \<and> queue_inv q'
           \<and> cur_row_index q \<le> cur_row_index q'
           \<and> arrow_table q' = arrow_table q \<and> n_valid_rows q' = n_valid_rows q"
proof (cases c)
  case (NextNRows n)
  with assms(2) have n0: "0 \<le> n" by (simp add: nonneg_call_def)
  show ?thesis
    using assms(1) n0 NextNRows
    by (simp add: next_n_rows_inv [OF assms(1) n0]) (simp add: queue_inv_def)
next
  case RemainingRows
  then show ?thesis
    using assms(1)
    by (simp add: remaining_rows_inv [OF assms(1)]) (simp add: queue_inv_def)
qed

lemma run_calls_inv:
  "queue_inv q \<Longrightarrow> \<forall>c \<in> set cs. nonneg_call c \<Longrightarrow>
   \<exists>ss q'. run_calls q cs = Inr (ss, q') \<and> queue_inv q'
     \<and> cur_row_index q \<le> cur_row_index q'
     \<and> arrow_table q' = arrow_table q \<and> n_valid_rows q' = n_valid_rows q"
proof (induction cs arbitrary: q)
  case Nil
  then show ?case by simp
next
  case (Cons c cs)
  from Cons.prems(2) have nc: "nonneg_call c" and ncs: "\<forall>c \<in> set cs. nonneg_call c"
    by simp_all
  from do_call_inv [OF Cons.prems(1) nc] obtain s q1 where
    1: "do_call q c = Inr (s, q1)" "queue_inv q1" "cur_row_index q \<le> cur_row_index q1"
       "arrow_table q1 = arrow_table q" "n_valid_rows q1 = n_valid_rows q"
    by blast
  from Cons.IH [OF 1(2) ncs] obtain ss q2 where
    2: "run_calls q1 cs = Inr (ss, q2)" "queue_inv q2" "cur_row_index q1 \<le> cur_row_index q2"
       "arrow_table q2 = arrow_table q1" "n_valid_rows q2 = n_valid_rows q1"
    by blast
  from 1 2 show ?case by simp
qed

section \<open>The claims about ArrowQueue\<close>

text \<open>
  C1. From a queue with \<open>0 \<le> cursor \<le> validRowCount \<le> batch size\<close> and for \<open>n \<ge> 0\<close>,
  \<open>next_n_rows q n\<close> returns exactly the rows \<open>[cursor, cursor + take)\<close> of the table,
  where \<open>take = min n (validRowCount - cursor)\<close>, and moves the cursor forward by
  \<open>take\<close>. On any table of 10 rows with \<open>validRowCount = 10\<close> and the cursor at 0,
  asking for 4 rows returns the first 4 and leaves the cursor at 4; asking for 100 then
  returns the other 6 and leaves the cursor at 10; \<open>remaining_rows\<close> then returns no row.
\<close>

theorem next_n_rows_slice:
  "(queue_inv q \<and> 0 \<le> n \<longrightarrow>
      (\<exists>s. next_n_rows q n =
              Inr (s, q\<lparr>cur_row_index :=
                          cur_row_index q + min n (n_valid_rows q - cur_row_index q)\<rparr>)
          \<and> s = take (nat (min n (n_valid_rows q - cur_row_index q)))
                  (drop (nat (cur_row_index q)) (arrow_table q))
          \<and> int (length s) = min n (n_valid_rows q - cur_row_index q)
          \<and> (\<forall>i < length s. s ! i = arrow_table q ! (nat (cur_row_index q) + i))))
   \<and> (length tbl = 10 \<longrightarrow>
      (\<exists>q1 q2 q3.
          next_n_rows (init_queue tbl 10 0) 4 = Inr (take 4 tbl, q1) \<and> length (take 4 tbl) = 4
        \<and> cur_row_index q1 = 4
        \<and> next_n_rows q1 100 = Inr (drop 4 tbl, q2) \<and> length (drop 4 tbl) = 6
        \<and> cur_row_index q2 = 10
        \<and> remaining_rows q2 = Inr ([], q3)))"
proof (intro conjI impI)
  assume a: "queue_inv q \<and> 0 \<le> n"
  let ?tk = "min n (n_valid_rows q - cur_row_index q)"
  let ?s = "take (nat ?tk) (drop (nat (cur_row_index q)) (arrow_table q))"
  from a have i: "queue_inv q" and n0: "0 \<le> n" by simp_all
  from a have tk0: "0 \<le> ?tk" and tk1: "?tk \<le> n_valid_rows q - cur_row_index q"
    by (auto simp: queue_inv_def)
  have len: "int (length ?s) = ?tk"
    by (rule length_take_drop_inv [OF i tk0 tk1])
  have "next_n_rows q n = Inr (?s, q\<lparr>cur_row_index := cur_row_index q + ?tk\<rparr>)"
    by (rule next_n_rows_inv [OF i n0])
  moreover have "\<forall>i < length ?s. ?s ! i = arrow_table q ! (nat (cur_row_index q) + i)"
    by auto
  ultimately show "\<exists>s. next_n_rows q n =
              Inr (s, q\<lparr>cur_row_index :=
                          cur_row_index q + min n (n_valid_rows q - cur_row_index q)\<rparr>)
          \<and> s = ?s
          \<and> int (length s) = min n (n_valid_rows q - cur_row_index q)
          \<and> (\<forall>i < length s. s ! i = arrow_table q ! (nat (cur_row_index q) + i))"
    using len by blast
next
  assume l: "length tbl = 10"
  let ?q0 = "init_queue tbl 10 0"
  let ?q1 = "?q0\<lparr>cur_row_index := 4\<rparr>"
  let ?q2 = "?q0\<lparr>cur_row_index := 10\<rparr>"
  have i0: "queue_inv ?q0" and i1: "queue_inv ?q1" and i2: "queue_inv ?q2"
    using l by (simp_all add: queue_inv_def init_queue_def)
  have 1: "next_n_rows ?q0 4 = Inr (take 4 tbl, ?q1)"
    using next_n_rows_inv [OF i0, of 4] by (simp add: init_queue_def)
  have 2: "next_n_rows ?q1 100 = Inr (drop 4 tbl, ?q2)"
    using next_n_rows_inv [OF i1, of 100] l by (simp add: init_queue_def)
  have 3: "remaining_rows ?q2 = Inr ([], ?q2)"
    using remaining_rows_inv [OF i2] by (simp add: init_queue_def)
  show "\<exists>q1 q2 q3.
          next_n_rows (init_queue tbl 10 0) 4 = Inr (take 4 tbl, q1) \<and> length (take 4 tbl) = 4
        \<and> cur_row_index q1 = 4
        \<and> next_n_rows q1 100 = Inr (drop 4 tbl, q2) \<and> length (drop 4 tbl) = 6
        \<and> cur_row_index q2 = 10
        \<and> remaining_rows q2 = Inr ([], q3)"
    using 1 2 3 l by (intro exI [of _ ?q1] exI [of _ ?q2]) simp
qed

theorem next_n_rows_slice_witness:
  "queue_inv (init_queue [1, 2, 3, 4, 5, 6, 7, 8, 9, 10 :: int] 10 0)
   \<and> length [1, 2, 3, 4, 5, 6, 7, 8, 9, 10 :: int] = 10
   \<and> next_n_rows (init_queue [1, 2, 3, 4, 5, 6, 7, 8, 9, 10 :: int] 10 0) 4 =
       Inr ([1, 2, 3, 4],
            \<lparr>cur_row_index = 4, arrow_table = [1, 2, 3, 4, 5, 6, 7, 8, 9, 10], n_valid_rows = 10\<rparr>)"
  using next_n_rows_slice [of "init_queue [1, 2, 3, 4, 5, 6, 7, 8, 9, 10 :: int] 10 0" 4
          "[1, 2, 3, 4, 5, 6, 7, 8, 9, 10 :: int]"]
  by (simp add: queue_inv_def init_queue_def)

text \<open>
  C2. From a queue with \<open>0 \<le> cursor \<le> validRowCount \<le> batch size\<close>, every finite
  sequence of \<open>next_n_rows\<close> calls (with \<open>n \<ge> 0\<close>) and \<open>remaining_rows\<close> calls runs
  without an exception and ends in a queue where \<open>0 \<le> cursor \<le> validRowCount\<close> (and
  \<open>validRowCount \<le> batch size\<close>) still holds, with the cursor no smaller than at the
  start; and from the queue so reached any single further call returns and does not
  decrease the cursor. As every prefix of a sequence is a sequence, this covers each
  call of a run.
\<close>

theorem cursor_invariant:
  assumes "queue_inv q" and "\<forall>c \<in> set cs. nonneg_call c"
  shows "\<exists>ss q'. run_calls q cs = Inr (ss, q')
           \<and> 0 \<le> cur_row_index q' \<and> cur_row_index q' \<le> n_valid_rows q'
           \<and> n_valid_rows q' \<le> int (length (arrow_table q'))
           \<and> cur_row_index q \<le> cur_row_index q'
           \<and> (\<forall>c. nonneg_call c \<longrightarrow>
                (\<exists>s q''. do_call q' c = Inr (s, q'')
                   \<and> cur_row_index q' \<le> cur_row_index q''))"
proof -
  from run_calls_inv [OF assms] obtain ss q' where
    r: "run_calls q cs = Inr (ss, q')" "queue_inv q'" "cur_row_index q \<le> cur_row_index q'"
    by blast
  have "\<exists>s q''. do_call q' c = Inr (s, q'') \<and> cur_row_index q' \<le> cur_row_index q''"
    if "nonneg_call c" for c
    using do_call_inv [OF r(2) that] by blast
  with r show ?thesis by (auto simp: queue_inv_def)
qed

theorem cursor_invariant_witness:
  "queue_inv (init_queue [10, 20, 30, 40, 50 :: int] 5 1)
   \<and> nonneg_call (NextNRows 2) \<and> nonneg_call RemainingRows \<and> nonneg_call (NextNRows 7)
   \<and> (\<exists>ss q'. run_calls (init_queue [10, 20, 30, 40, 50 :: int] 5 1)
                  [NextNRows 2, RemainingRows, NextNRows 7] = Inr (ss, q')
         \<and> 0 \<le> cur_row_index q' \<and> cur_row_index q' \<le> n_valid_rows q'
         \<and> 1 \<le> cur_row_index q')"
proof -
  have i: "queue_inv (init_queue [10, 20, 30, 40, 50 :: int] 5 1)"
    by (simp add: queue_inv_def init_queue_def)
  have c: "\<forall>c \<in> set [NextNRows 2, RemainingRows, NextNRows 7]. nonneg_call c"
    by (simp add: nonneg_call_def)
  have n: "nonneg_call (NextNRows 2) \<and> nonneg_call RemainingRows \<and> nonneg_call (NextNRows 7)"
    by (simp add: nonneg_call_def)
  from cursor_invariant [OF i c] obtain ss q' where
    "run_calls (init_queue [10, 20, 30, 40, 50 :: int] 5 1)
       [NextNRows 2, RemainingRows, NextNRows 7] = Inr (ss, q')"
    "0 \<le> cur_row_index q'" "cur_row_index q' \<le> n_valid_rows q'"
    "cur_row_index (init_queue [10, 20, 30, 40, 50 :: int] 5 1) \<le> cur_row_index q'"
    by blast
  then have "\<exists>ss q'. run_calls (init_queue [10, 20, 30, 40, 50 :: int] 5 1)
                  [NextNRows 2, RemainingRows, NextNRows 7] = Inr (ss, q')
         \<and> 0 \<le> cur_row_index q' \<and> cur_row_index q' \<le> n_valid_rows q'
         \<and> 1 \<le> cur_row_index q'"
    by (auto simp: init_queue_def)
  with i n show ?thesis by blast
qed

text \<open>
  C6, as stated: \<open>next_n_rows\<close> never raises, for any integer \<open>n\<close>, and returns an
  empty batch for every negative \<open>n\<close>. This fails for an \<open>n\<close> below \<open>-2\<^sup>6\<^sup>3\<close>, from a
  queue that satisfies the whole invariant of the data model: the length handed to
  the table's \<open>slice\<close> is then \<open>n\<close> itself, and its conversion raises
  \<open>OverflowError\<close>.
\<close>

theorem next_n_rows_raises_counterexample:
  "queue_inv (init_queue [10, 20, 30 :: int] 3 1)
   \<and> cur_row_index (init_queue [10, 20, 30 :: int] 3 1)
       \<le> n_valid_rows (init_queue [10, 20, 30 :: int] 3 1)
   \<and> next_n_rows (init_queue [10, 20, 30 :: int] 3 1) (- (2 ^ 63) - 1) = Inl OverflowError"
  by (simp add: queue_inv_def init_queue_def next_n_rows_def slice_def py_min_def
        length_ok_def fits_int64_def)

text \<open>
  C6, amended: from every queue with \<open>0 \<le> cursor \<le> validRowCount \<le> batch size\<close>,
  \<open>next_n_rows q n\<close> raises for no integer \<open>n \<ge> -2\<^sup>6\<^sup>3\<close>: it returns a slice and a
  queue; the slice is empty when \<open>n\<close> is zero or negative, and when \<open>n\<close> exceeds the
  number of available rows the slice has exactly that many rows, fewer than \<open>n\<close>.
\<close>

theorem next_n_rows_never_raises:
  assumes "queue_inv q" and "- (2 ^ 63) \<le> n"
  shows "\<exists>s q'. next_n_rows q n = Inr (s, q')
           \<and> (n \<le> 0 \<longrightarrow> s = [])
           \<and> (n_valid_rows q - cur_row_index q < n \<longrightarrow>
                int (length s) = n_valid_rows q - cur_row_index q \<and> int (length s) < n)"
proof (cases "0 \<le> n")
  case True
  let ?tk = "min n (n_valid_rows q - cur_row_index q)"
  from assms(1) True have tk0: "0 \<le> ?tk" and tk1: "?tk \<le> n_valid_rows q - cur_row_index q"
    by (auto simp: queue_inv_def)
  have len: "int (length (take (nat ?tk) (drop (nat (cur_row_index q)) (arrow_table q)))) = ?tk"
    by (rule length_take_drop_inv [OF assms(1) tk0 tk1])
  show ?thesis
    using next_n_rows_inv [OF assms(1) True] len True by auto
next
  case False
  from assms(1) have c0: "0 \<le> cur_row_index q" and le: "cur_row_index q \<le> n_valid_rows q"
    by (simp_all add: queue_inv_def)
  from False le have m: "min n (n_valid_rows q - cur_row_index q) = n" by simp
  from False assms(2) have "fits_int64 n" by (simp add: fits_int64_def)
  then have lo: "length_ok (arrow_table q) (min n (n_valid_rows q - cur_row_index q))"
    by (simp add: m length_ok_def)
  show ?thesis
    using next_n_rows_nonneg [OF c0 lo] False le by (simp add: Let_def m)
qed

theorem next_n_rows_never_raises_witness:
  "queue_inv (init_queue [10, 20, 30 :: int] 3 1)
   \<and> - (2 ^ 63) \<le> (- 4 :: int) \<and> - (2 ^ 63) \<le> (7 :: int)
   \<and> (\<exists>q'. next_n_rows (init_queue [10, 20, 30 :: int] 3 1) (- 4) = Inr ([], q'))
   \<and> (\<exists>s q'. next_n_rows (init_queue [10, 20, 30 :: int] 3 1) 7 = Inr (s, q') \<and> length s = 2)"
proof -
  let ?q = "init_queue [10, 20, 30 :: int] 3 1"
  have i: "queue_inv ?q"
    by (simp add: queue_inv_def init_queue_def)
  have a: "- (2 ^ 63) \<le> (- 4 :: int)" and b: "- (2 ^ 63) \<le> (7 :: int)"
    by simp_all
  have 1: "\<exists>q'. next_n_rows ?q (- 4) = Inr ([], q')"
    using next_n_rows_never_raises [OF i a] by auto
  have 2: "\<exists>s q'. next_n_rows ?q 7 = Inr (s, q') \<and> length s = 2"
    using next_n_rows_never_raises [OF i b] by (auto simp: init_queue_def)
  from i a b 1 2 show ?thesis by blast
qed

text \<open>
  C8. From a queue with \<open>0 \<le> cursor \<le> validRowCount \<le> batch size\<close>, \<open>remaining_rows\<close>
  is \<open>next_n_rows\<close> asked for \<open>validRowCount - cursor\<close> rows: the two return the same
  slice, the rows \<open>[cursor, validRowCount)\<close>, and the same queue, whose cursor is
  \<open>validRowCount\<close>.
\<close>

theorem remaining_rows_is_next_n_rows:
  assumes "queue_inv q"
  shows "remaining_rows q = next_n_rows q (n_valid_rows q - cur_row_index q)
         \<and> remaining_rows q =
             Inr (take (nat (n_valid_rows q - cur_row_index q))
                    (drop (nat (cur_row_index q)) (arrow_table q)),
                  q\<lparr>cur_row_index := n_valid_rows q\<rparr>)"
proof -
  have "remaining_rows q = next_n_rows q (n_valid_rows q - cur_row_index q)"
    by (simp add: remaining_rows_def next_n_rows_def py_min_def)
  moreover have "remaining_rows q =
             Inr (take (nat (n_valid_rows q - cur_row_index q))
                    (drop (nat (cur_row_index q)) (arrow_table q)),
                  q\<lparr>cur_row_index := n_valid_rows q\<rparr>)"
    by (rule remaining_rows_inv [OF assms])
  ultimately show ?thesis by simp
qed

theorem remaining_rows_is_next_n_rows_witness:
  "queue_inv (init_queue [10, 20, 30, 40 :: int] 3 1)
   \<and> remaining_rows (init_queue [10, 20, 30, 40 :: int] 3 1)
       = next_n_rows (init_queue [10, 20, 30, 40 :: int] 3 1) 2
   \<and> remaining_rows (init_queue [10, 20, 30, 40 :: int] 3 1)
       = Inr ([20, 30], \<lparr>cur_row_index = 3, arrow_table = [10, 20, 30, 40], n_valid_rows = 3\<rparr>)"
proof -
  have i: "queue_inv (init_queue [10, 20, 30, 40 :: int] 3 1)"
    by (simp add: queue_inv_def init_queue_def)
  from remaining_rows_is_next_n_rows [OF i] i show ?thesis
    by (auto simp: init_queue_def)
qed

text \<open>
  Once the cursor has reached \<open>validRowCount\<close>, a call returns no row and leaves the
  queue as it is; so does every run of calls.
\<close>

lemma do_call_exhausted:
  assumes "queue_inv q" and "cur_row_index q = n_valid_rows q" and "pos_call c"
  shows "do_call q c = Inr ([], q)"
proof (cases c)
  case (NextNRows k)
  with assms(3) have k0: "0 \<le> k" by (simp add: pos_call_def)
  show ?thesis
    using NextNRows k0 assms(2) by (simp add: next_n_rows_inv [OF assms(1) k0])
next
  case RemainingRows
  then show ?thesis
    using assms(2) by (simp add: remaining_rows_inv [OF assms(1)])
qed

lemma run_calls_exhausted:
  assumes "queue_inv q" and "cur_row_index q = n_valid_rows q"
  shows "\<forall>c \<in> set cs. pos_call c \<Longrightarrow> run_calls q cs = Inr (replicate (length cs) [], q)"
  by (induction cs) (simp_all add: do_call_exhausted [OF assms])

text \<open>
  C7. For a queue with \<open>0 \<le> cursor \<le> validRowCount \<le> batch size\<close>: once
  \<open>cursor = validRowCount\<close>, every run of later calls, \<open>next_n_rows\<close> with \<open>k > 0\<close> and
  \<open>remaining_rows\<close>, returns only empty batches and leaves the queue as it is, and so
  does each single such call; and \<open>remaining_rows\<close>, called from any such queue,
  returns and leaves a queue with \<open>cursor = validRowCount\<close> from which \<open>next_n_rows\<close>
  returns an empty batch for every \<open>k > 0\<close>.
\<close>

theorem exhausted_stays_empty:
  assumes "queue_inv q"
  shows "(cur_row_index q = n_valid_rows q \<longrightarrow>
            ((\<forall>c \<in> set cs. pos_call c) \<longrightarrow>
               run_calls q cs = Inr (replicate (length cs) [], q))
          \<and> (\<forall>k > 0. next_n_rows q k = Inr ([], q))
          \<and> remaining_rows q = Inr ([], q))
       \<and> (\<exists>s q'. remaining_rows q = Inr (s, q')
             \<and> cur_row_index q' = n_valid_rows q'
             \<and> (\<forall>k > 0. next_n_rows q' k = Inr ([], q')))"
proof (intro conjI impI allI)
  assume e: "cur_row_index q = n_valid_rows q"
  show "run_calls q cs = Inr (replicate (length cs) [], q)" if "\<forall>c \<in> set cs. pos_call c"
    by (rule run_calls_exhausted [OF assms e that])
  show "next_n_rows q k = Inr ([], q)" if "0 < k" for k
    using do_call_exhausted [OF assms e, of "NextNRows k"] that by (simp add: pos_call_def)
  show "remaining_rows q = Inr ([], q)"
    using do_call_exhausted [OF assms e, of RemainingRows] by (simp add: pos_call_def)
next
  define s where "s = take (nat (n_valid_rows q - cur_row_index q))
              (drop (nat (cur_row_index q)) (arrow_table q))"
  define q' where "q' = q\<lparr>cur_row_index := n_valid_rows q\<rparr>"
  have r: "remaining_rows q = Inr (s, q')"
    unfolding s_def q'_def by (rule remaining_rows_inv [OF assms])
  have e: "cur_row_index q' = n_valid_rows q'"
    by (simp add: q'_def)
  have i: "queue_inv q'"
    using assms by (simp add: q'_def queue_inv_def)
  have "next_n_rows q' k = Inr ([], q')" if "0 < k" for k
    using do_call_exhausted [OF i e, of "NextNRows k"] that by (simp add: pos_call_def)
  with r e show "\<exists>s q'. remaining_rows q = Inr (s, q')
             \<and> cur_row_index q' = n_valid_rows q'
             \<and> (\<forall>k > 0. next_n_rows q' k = Inr ([], q'))"
    by blast
qed

theorem exhausted_stays_empty_witness:
  "queue_inv (init_queue [10, 20, 30 :: int] 3 3)
   \<and> cur_row_index (init_queue [10, 20, 30 :: int] 3 3)
       = n_valid_rows (init_queue [10, 20, 30 :: int] 3 3)
   \<and> pos_call (NextNRows 2) \<and> pos_call RemainingRows \<and> pos_call (NextNRows 1)
   \<and> run_calls (init_queue [10, 20, 30 :: int] 3 3) [NextNRows 2, RemainingRows, NextNRows 1]
       = Inr ([[], [], []], init_queue [10, 20, 30 :: int] 3 3)
   \<and> next_n_rows (init_queue [10, 20, 30 :: int] 3 3) 5
       = Inr ([], init_queue [10, 20, 30 :: int] 3 3)
   \<and> queue_inv (init_queue [10, 20, 30 :: int] 3 1)
   \<and> (\<exists>s q'. remaining_rows (init_queue [10, 20, 30 :: int] 3 1) = Inr (s, q')
         \<and> next_n_rows q' 5 = Inr ([], q'))"
proof -
  let ?q = "init_queue [10, 20, 30 :: int] 3 3"
  let ?p = "init_queue [10, 20, 30 :: int] 3 1"
  have a: "queue_inv ?q" and b: "cur_row_index ?q = n_valid_rows ?q"
    by (simp_all add: queue_inv_def init_queue_def)
  have c: "queue_inv ?p"
    by (simp add: queue_inv_def init_queue_def)
  have p: "pos_call (NextNRows 2) \<and> pos_call RemainingRows \<and> pos_call (NextNRows 1)"
    by (simp add: pos_call_def)
  have 1: "run_calls ?q [NextNRows 2, RemainingRows, NextNRows 1] = Inr ([[], [], []], ?q)
           \<and> next_n_rows ?q 5 = Inr ([], ?q)"
    using exhausted_stays_empty [OF a, of "[NextNRows 2, RemainingRows, NextNRows 1]"] b p
    by simp
  have 2: "\<exists>s q'. remaining_rows ?p = Inr (s, q') \<and> next_n_rows q' 5 = Inr ([], q')"
    using exhausted_stays_empty [OF c, of "[]"] by fastforce
  from a b c p 1 2 show ?thesis by blast
qed

section \<open>The claim about bounding\<close>

text \<open>
  C5. For every value and every pair of optional bounds, \<open>bound\<close> (the code's
  \<^verbatim>\<open>_bound\<close>) equals the four-case reference definition \<open>clamp_spec\<close>; and
  \<open>clamp(None, 10, 15) = 10\<close>, \<open>clamp(0, None, -3) = 0\<close>, \<open>clamp(0, 10, 5) = 5\<close>.
\<close>

theorem bound_is_clamp:
  "bound min_x max_x x = clamp_spec min_x max_x x
   \<and> bound None (Some 10) (15 :: int) = 10
   \<and> bound (Some 0) None (- 3 :: int) = 0
   \<and> bound (Some 0) (Some 10) (5 :: int) = 5"
proof -
  have "bound min_x max_x x = clamp_spec min_x max_x x"
    by (cases min_x; cases max_x) (simp_all add: bound_def py_min_eq_min py_max_eq_max)
  moreover have "bound None (Some 10) (15 :: int) = 10"
    by (simp add: bound_def py_min_def)
  moreover have "bound (Some 0) None (- 3 :: int) = 0"
    by (simp add: bound_def py_max_def)
  moreover have "bound (Some 0) (Some 10) (5 :: int) = 5"
    by (simp add: bound_def py_min_def py_max_def)
  ultimately show ?thesis by blast
qed

section \<open>The claims about RequestErrorInfo\<close>

lemma show_int_3: "show_int 3 = ''3''"
  by (simp add: show_int_def show_nat.simps digit_char_def)

text \<open>
  C3. For every RequestErrorInfo and every reason, attempt, maximum of attempts, elapsed
  time and maximum duration, \<open>full_info_logging_str\<close> is the text of the
  \<open>Key: Value\<close> pairs separated by \<open>; \<close> with the keys in the order Method, Session-id,
  Query-id, HTTP-code, Error-message, Original-exception, followed by No-retry-reason
  with the reason's label when a reason is given, and otherwise by Bounded-retry-delay,
  Attempt as \<open>attempt/max_attempts\<close> and Elapsed-seconds as \<open>elapsed/max_duration\<close>.
  The third conjunct is the line of the specification's scenario, where no reason is
  given, the delay prints as \<open>1.5\<close>, the attempt is 1 of 5 and 2 of 30 seconds have
  passed.
\<close>

theorem full_info_logging_str_fields:
  "full_info_logging_str info (Some r) attempt max_attempts elapsed max_duration =
     ''Method: '' @ method info
     @ ''; Session-id: '' @ py_str (request_session_id info)
     @ ''; Query-id: '' @ py_str (request_query_id info)
     @ ''; HTTP-code: '' @ py_str (opt_int_val (http_code info))
     @ ''; Error-message: '' @ py_str (opt_str_val (error_message info))
     @ ''; Original-exception: '' @ py_str (error info)
     @ ''; No-retry-reason: '' @ nrr_value r
   \<and> full_info_logging_str info None attempt max_attempts elapsed max_duration =
     ''Method: '' @ method info
     @ ''; Session-id: '' @ py_str (request_session_id info)
     @ ''; Query-id: '' @ py_str (request_query_id info)
     @ ''; HTTP-code: '' @ py_str (opt_int_val (http_code info))
     @ ''; Error-message: '' @ py_str (opt_str_val (error_message info))
     @ ''; Original-exception: '' @ py_str (error info)
     @ ''; Bounded-retry-delay: '' @ py_str (retry_delay info)
     @ ''; Attempt: '' @ py_str attempt @ ''/'' @ py_str max_attempts
     @ ''; Elapsed-seconds: '' @ py_str elapsed @ ''/'' @ py_str max_duration
   \<and> full_info_logging_str
       \<lparr>error = PObj ''timed out'', error_message = Some ''timeout'', retry_delay = PObj ''1.5'',
        http_code = None, method = ''ExecuteStatement'',
        request = \<lparr>sessionHandle = None, operationHandle = None\<rparr>\<rparr>
       None (PInt 1) (PInt 5) (PInt 2) (PInt 30) =
     ''Method: ExecuteStatement; Session-id: None; Query-id: None; HTTP-code: None; Error-message: timeout; Original-exception: timed out; Bounded-retry-delay: 1.5; Attempt: 1/5; Elapsed-seconds: 2/30''"
  by (simp add: full_info_logging_str_def OrderedDict_def format_item_def
        request_session_id_def request_query_id_def opt_int_val_def opt_str_val_def
        show_int_def show_nat.simps digit_char_def)

text \<open>
  C4, as stated: the message has the suffix \<open>: \<close> followed by the error message
  whenever the error message is present. This fails for the empty string, which is
  present and yet adds nothing: the code tests the truth value of the error message.
\<close>

theorem user_friendly_error_message_empty_counterexample:
  "user_friendly_error_message
       \<lparr>error = PObj ''timed out'', error_message = Some [], retry_delay = PNone,
        http_code = None, method = ''ExecuteStatement'',
        request = \<lparr>sessionHandle = None, operationHandle = None\<rparr>\<rparr>
       None (PInt 1) (PInt 2) = ''Error during request to server''
   \<and> user_friendly_error_message
       \<lparr>error = PObj ''timed out'', error_message = Some [], retry_delay = PNone,
        http_code = None, method = ''ExecuteStatement'',
        request = \<lparr>sessionHandle = None, operationHandle = None\<rparr>\<rparr>
       None (PInt 1) (PInt 2) \<noteq> ''Error during request to server'' @ '': '' @ []"
  by (simp add: user_friendly_error_message_def str_truthy_def)

text \<open>
  C4, amended: the message starts with \<open>Error during request to server\<close>; if the
  error message is present and not empty, \<open>: \<close> and the error message follow; then
  for OUT_OF_ATTEMPTS \<open>: After <attempt> retry attempts, retries are exhausted\<close>, for
  OUT_OF_TIME \<open>: After <elapsed> seconds, maximum retry duration will be exceeded\<close>,
  and nothing for NOT_RETRYABLE or no reason. With the error message \<open>timeout\<close>, the
  reason OUT_OF_ATTEMPTS and attempt 3 the message is
  \<open>Error during request to server: timeout: After 3 retry attempts, retries are exhausted\<close>.
\<close>

theorem user_friendly_error_message_shape:
  "user_friendly_error_message info no_retry_reason attempt elapsed =
     ''Error during request to server''
     @ (case error_message info of
          None \<Rightarrow> []
        | Some m \<Rightarrow> if m = [] then [] else '': '' @ m)
     @ (case no_retry_reason of
          Some OUT_OF_ATTEMPTS \<Rightarrow>
            '': After '' @ py_str attempt @ '' retry attempts, retries are exhausted''
        | Some OUT_OF_TIME \<Rightarrow>
            '': After '' @ py_str elapsed @ '' seconds, maximum retry duration will be exceeded''
        | Some NOT_RETRYABLE \<Rightarrow> []
        | None \<Rightarrow> [])
   \<and> user_friendly_error_message
       \<lparr>error = e, error_message = Some ''timeout'', retry_delay = d,
        http_code = c, method = ''ExecuteStatement'', request = r\<rparr>
       (Some OUT_OF_ATTEMPTS) (PInt 3) el =
     ''Error during request to server: timeout: After 3 retry attempts, retries are exhausted''"
proof
  show "user_friendly_error_message info no_retry_reason attempt elapsed =
     ''Error during request to server''
     @ (case error_message info of
          None \<Rightarrow> []
        | Some m \<Rightarrow> if m = [] then [] else '': '' @ m)
     @ (case no_retry_reason of
          Some OUT_OF_ATTEMPTS \<Rightarrow>
            '': After '' @ py_str attempt @ '' retry attempts, retries are exhausted''
        | Some OUT_OF_TIME \<Rightarrow>
            '': After '' @ py_str elapsed @ '' seconds, maximum retry duration will be exceeded''
        | Some NOT_RETRYABLE \<Rightarrow> []
        | None \<Rightarrow> [])"
    by (simp add: user_friendly_error_message_def str_truthy_def opt_str_val_def Let_def
          split: option.split NoRetryReason.split)
next
  show "user_friendly_error_message
       \<lparr>error = e, error_message = Some ''timeout'', retry_delay = d,
        http_code = c, method = ''ExecuteStatement'', request = r\<rparr>
       (Some OUT_OF_ATTEMPTS) (PInt 3) el =
     ''Error during request to server: timeout: After 3 retry attempts, retries are exhausted''"
    by (simp add: user_friendly_error_message_def str_truthy_def opt_str_val_def show_int_3)
qed

text \<open>
  C9. Two RequestErrorInfo values that differ in the \<open>error\<close> field only give the
  same user message, for every reason, attempt and elapsed time: the raw error has no
  influence on the message.
\<close>

theorem user_message_ignores_error:
  "user_friendly_error_message (info\<lparr>error := e1\<rparr>) no_retry_reason attempt elapsed
   = user_friendly_error_message (info\<lparr>error := e2\<rparr>) no_retry_reason attempt elapsed"
  by (simp add: user_friendly_error_message_def Let_def)

text \<open>
  C10. An error message that is present but empty adds no suffix: the message is the
  one of the same RequestErrorInfo with no error message, that is the base sentence
  followed only by the suffix of the reason.
\<close>

theorem empty_error_message_suppressed:
  "user_friendly_error_message (info\<lparr>error_message := Some []\<rparr>) no_retry_reason attempt elapsed
     = user_friendly_error_message (info\<lparr>error_message := None\<rparr>) no_retry_reason attempt elapsed
   \<and> user_friendly_error_message (info\<lparr>error_message := Some []\<rparr>) no_retry_reason attempt elapsed
     = ''Error during request to server''
       @ (case no_retry_reason of
            Some OUT_OF_ATTEMPTS \<Rightarrow>
              '': After '' @ py_str attempt @ '' retry attempts, retries are exhausted''
          | Some OUT_OF_TIME \<Rightarrow>
              '': After '' @ py_str elapsed @ '' seconds, maximum retry duration will be exceeded''
          | Some NOT_RETRYABLE \<Rightarrow> []
          | None \<Rightarrow> [])"
  by (simp add: user_friendly_error_message_def str_truthy_def Let_def
        split: option.split NoRetryReason.split)

end
